theory Spec2Isabelle
  imports Main "HOL-Library.Multiset"
begin

section \<open>Data model of \<open>src/index.tsx\<close>\<close>

text \<open>
  JavaScript numbers that the program only ever builds from integers (clock readings,
  minutes, seconds, counters) are modelled as \<open>int\<close>; rounding of values beyond
  \<open>2^53\<close> is outside the model. A value that may be \<open>null\<close> is an \<open>option\<close>.
\<close>

datatype Priority = High | Medium | Low

datatype Status = Active | Completed

datatype Source = Lucid | Google

datatype Mode = Work | ShortBreak | LongBreak

text \<open>\<open>Omit<ParsedTask, 'id' | 'status' | 'source'>\<close>: the candidate a parse returns.\<close>

record Candidate =
  c_taskName :: string
  c_date :: string
  c_time :: "string option"
  c_category :: string
  c_priority :: Priority

record ParsedTask =
  idT :: int
  taskName :: string
  date :: string
  time :: "string option"
  category :: string
  priority :: Priority
  status :: Status
  source :: Source

record PomodoroSettings =
  work :: int
  shortBreak :: int
  longBreak :: int
  cycles :: int

record ActiveTimer =
  taskId :: int
  timeLeft :: int
  mode :: Mode
  cycleCount :: int
  isPaused :: bool

text \<open>\<open>keyof PomodoroSettings\<close>.\<close>

datatype SettingsField = F_work | F_shortBreak | F_longBreak | F_cycles

text \<open>
  The \<open>useState\<close> cells of \<open>App\<close> that the handlers below read or write. A handler is a
  function from the state before the event to the state after it.
\<close>

record App =
  userInput :: string
  parsedTask :: "Candidate option"
  tasks :: "ParsedTask list"
  isSettingsOpen :: bool
  pomodoroSettings :: PomodoroSettings
  activeTimer :: "ActiveTimer option"
  googleCalendarSync :: "bool \<times> string option"

definition DEFAULT_SETTINGS :: PomodoroSettings where
  "DEFAULT_SETTINGS = \<lparr>work = 25, shortBreak = 5, longBreak = 15, cycles = 4\<rparr>"

text \<open>The state \<open>App\<close> mounts with.\<close>

definition initialApp :: App where
  "initialApp = \<lparr>userInput = [], parsedTask = None, tasks = [], isSettingsOpen = False,
     pomodoroSettings = DEFAULT_SETTINGS, activeTimer = None,
     googleCalendarSync = (False, None)\<rparr>"

section \<open>Pomodoro timer\<close>

text \<open>
  JavaScript's \<open>a % b\<close> on integers: the result has the sign of the dividend, and
  \<open>a % 0\<close> is \<open>NaN\<close> (here \<open>None\<close>), which is \<open>=== 0\<close> for no \<open>a\<close>.
\<close>

definition js_rem :: "int \<Rightarrow> int \<Rightarrow> int option" where
  "js_rem a b = (if b = 0 then None else Some (sgn a * (\<bar>a\<bar> mod \<bar>b\<bar>)))"

definition setActiveTimer :: "ActiveTimer option \<Rightarrow> App \<Rightarrow> App" where
  "setActiveTimer v st = st\<lparr>activeTimer := v\<rparr>"

definition transitionToNextMode :: "ActiveTimer \<Rightarrow> App \<Rightarrow> App" where
  "transitionToNextMode currentTimer st =
     (if mode currentTimer = Work then
        (let newCycleCount = cycleCount currentTimer + 1;
             isLongBreakTime = (js_rem newCycleCount (cycles (pomodoroSettings st)) = Some 0)
         in if isLongBreakTime then
              setActiveTimer (Some (currentTimer\<lparr>mode := LongBreak,
                timeLeft := longBreak (pomodoroSettings st) * 60,
                cycleCount := newCycleCount\<rparr>)) st
            else
              setActiveTimer (Some (currentTimer\<lparr>mode := ShortBreak,
                timeLeft := shortBreak (pomodoroSettings st) * 60,
                cycleCount := newCycleCount\<rparr>)) st)
      else
        setActiveTimer (Some (currentTimer\<lparr>mode := Work,
          timeLeft := work (pomodoroSettings st) * 60\<rparr>)) st)"

text \<open>
  One firing of the interval that the timer effect installs. The effect installs no
  interval when there is no timer or the timer is paused, so nothing fires then. On a
  timer with more than one second left the updater returns the decremented timer.
  Otherwise the updater writes the state twice: it calls \<open>transitionToNextMode\<close>, which
  calls \<open>setActiveTimer\<close> with the next timer, and then it returns \<open>null\<close>. Which of
  the two writes is applied last is decided by React, not by the program:
  \<^item> \<open>NestedLast\<close>: the updater runs while the component renders (the component has
    pending work, as after any update that changed its state); the nested write is
    applied after the updater's result, and the next timer stands, as the source's
    comment says (``Stop old timer, new one will be set'');
  \<^item> \<open>UpdaterLast\<close>: the updater runs at once when the interval fires (the component
    has no pending work, as after an update that changed nothing); the nested write is
    queued first and the updater's \<open>null\<close> is applied last, and no timer is left.
\<close>

datatype UpdateOrder = NestedLast | UpdaterLast

definition timerTick :: "UpdateOrder \<Rightarrow> App \<Rightarrow> App" where
  "timerTick order st =
     (case activeTimer st of
        None \<Rightarrow> st
      | Some prev \<Rightarrow>
          if isPaused prev then st
          else if timeLeft prev > 1 then
            setActiveTimer (Some (prev\<lparr>timeLeft := timeLeft prev - 1\<rparr>)) st
          else
            (case order of
               NestedLast \<Rightarrow> transitionToNextMode prev (setActiveTimer None st)
             | UpdaterLast \<Rightarrow> setActiveTimer None (transitionToNextMode prev st)))"

definition handleStartTimer :: "int \<Rightarrow> App \<Rightarrow> App" where
  "handleStartTimer tid st =
     setActiveTimer (Some \<lparr>taskId = tid, timeLeft = work (pomodoroSettings st) * 60,
       mode = Work, cycleCount = 0, isPaused = False\<rparr>) st"

text \<open>
  The ``Start Timer'' button of the list row of task \<open>tid\<close>. The row shows the timer
  controls instead of the button when the timer belongs to that task, and the button is
  rendered with \<open>disabled={!!activeTimer}\<close>: a click on a disabled button runs no handler.
\<close>

definition startTimerButton :: "int \<Rightarrow> App \<Rightarrow> App" where
  "startTimerButton tid st =
     (let isTimerActiveForTask = (map_option taskId (activeTimer st) = Some tid)
      in if isTimerActiveForTask then st
         else if activeTimer st \<noteq> None then st
         else handleStartTimer tid st)"

definition handlePauseResumeTimer :: "App \<Rightarrow> App" where
  "handlePauseResumeTimer st =
     setActiveTimer (case activeTimer st of
        Some prev \<Rightarrow> Some (prev\<lparr>isPaused := \<not> isPaused prev\<rparr>)
      | None \<Rightarrow> None) st"

definition handleSkip :: "App \<Rightarrow> App" where
  "handleSkip st =
     (case activeTimer st of
        Some t \<Rightarrow> transitionToNextMode t st
      | None \<Rightarrow> st)"

definition handleResetTimer :: "App \<Rightarrow> App" where
  "handleResetTimer st = setActiveTimer None st"

section \<open>Configurations, runs and example states\<close>

definition positiveDurations :: "PomodoroSettings \<Rightarrow> bool" where
  "positiveDurations s = (0 < work s \<and> 0 < shortBreak s \<and> 0 < longBreak s)"

definition positiveSettings :: "PomodoroSettings \<Rightarrow> bool" where
  "positiveSettings s = (positiveDurations s \<and> 0 < cycles s)"

text \<open>
  The user's timer controls and the interval, as a run of operations; a tick carries the
  order in which its writes are applied.
\<close>

datatype TimerOp = Tick UpdateOrder | PauseResume | Skip

fun applyTimerOp :: "TimerOp \<Rightarrow> App \<Rightarrow> App" where
  "applyTimerOp (Tick order) st = timerTick order st"
| "applyTimerOp PauseResume st = handlePauseResumeTimer st"
| "applyTimerOp Skip st = handleSkip st"

fun runTimerOps :: "TimerOp list \<Rightarrow> App \<Rightarrow> App" where
  "runTimerOps [] st = st"
| "runTimerOps (x # xs) st = runTimerOps xs (applyTimerOp x st)"

text \<open>A timer, when there is one, has at least one second left.\<close>

definition secondsLeft :: "App \<Rightarrow> bool" where
  "secondsLeft st = (case activeTimer st of None \<Rightarrow> True | Some t \<Rightarrow> 1 \<le> timeLeft t)"

text \<open>
  In a break, the kind of break agrees with the count of completed work intervals: long
  when the count is a multiple of \<open>cycles\<close>, short otherwise.
\<close>

definition breakMatchesCount :: "PomodoroSettings \<Rightarrow> ActiveTimer \<Rightarrow> bool" where
  "breakMatchesCount s t =
     (case mode t of
        Work \<Rightarrow> True
      | ShortBreak \<Rightarrow> cycleCount t mod cycles s \<noteq> 0
      | LongBreak \<Rightarrow> cycleCount t mod cycles s = 0)"

definition breakMatches :: "App \<Rightarrow> bool" where
  "breakMatches st =
     (case activeTimer st of
        None \<Rightarrow> True
      | Some t \<Rightarrow> breakMatchesCount (pomodoroSettings st) t)"


definition pausedTimerApp :: App where
  "pausedTimerApp = handlePauseResumeTimer (handleStartTimer 1 initialApp)"

definition lastSecondApp :: App where
  "lastSecondApp = initialApp\<lparr>activeTimer := Some \<lparr>taskId = 1, timeLeft = 1, mode = Work,
     cycleCount = 3, isPaused = False\<rparr>\<rparr>"

definition otherTimerApp :: App where
  "otherTimerApp = initialApp\<lparr>activeTimer := Some \<lparr>taskId = 1, timeLeft = 700, mode = ShortBreak,
     cycleCount = 2, isPaused = True\<rparr>\<rparr>"

section \<open>Task store\<close>

text \<open>
  \<open>handleSubmit\<close> stores the candidate the parsing service returns with
  \<open>setParsedTask\<close>; \<open>handleAccept\<close> turns the stored candidate into a task. The id is the
  clock reading \<open>Date.now()\<close>, an input of the handler.
\<close>

definition setParsedTask :: "Candidate option \<Rightarrow> App \<Rightarrow> App" where
  "setParsedTask v st = st\<lparr>parsedTask := v\<rparr>"

definition handleAccept :: "int \<Rightarrow> App \<Rightarrow> App" where
  "handleAccept now st =
     (case parsedTask st of
        Some p \<Rightarrow>
          (let newTask = \<lparr>idT = now, taskName = c_taskName p, date = c_date p, time = c_time p,
                 category = c_category p, priority = c_priority p,
                 status = Active, source = Lucid\<rparr>
           in st\<lparr>tasks := tasks st @ [newTask], parsedTask := None, userInput := []\<rparr>)
      | None \<Rightarrow> st)"

definition handleToggleComplete :: "int \<Rightarrow> App \<Rightarrow> App" where
  "handleToggleComplete tid st =
     (let st' = st\<lparr>tasks := map (\<lambda>task.
                  if idT task = tid
                  then task\<lparr>status := (if status task = Active then Completed else Active)\<rparr>
                  else task) (tasks st)\<rparr>
      in if map_option taskId (activeTimer st) = Some tid
         then setActiveTimer None st' else st')"

definition handleConnectGoogleCalendar :: "App \<Rightarrow> App" where
  "handleConnectGoogleCalendar st = st\<lparr>googleCalendarSync := (True, Some ''user@example.com'')\<rparr>"

definition handleDisconnectGoogleCalendar :: "App \<Rightarrow> App" where
  "handleDisconnectGoogleCalendar st =
     st\<lparr>googleCalendarSync := (False, None),
        tasks := filter (\<lambda>task. source task \<noteq> Google) (tasks st)\<rparr>"

text \<open>
  \<open>handleSyncNow\<close> reads the clock twice, once for each event's id (\<open>now1\<close> and \<open>now2\<close>),
  and asks the platform for the en-US long date of today and of tomorrow; the four are
  inputs of the handler.
\<close>

definition handleSyncNow :: "int \<Rightarrow> int \<Rightarrow> string \<Rightarrow> string \<Rightarrow> App \<Rightarrow> App" where
  "handleSyncNow now1 now2 todayText tomorrowText st =
     (let googleEvents =
        [\<lparr>idT = now1, taskName = ''Team Standup'', date = todayText, time = Some ''10:00 AM'',
          category = ''Work'', priority = Medium, status = Active, source = Google\<rparr>,
         \<lparr>idT = now2 + 1, taskName = ''Design Review'', date = tomorrowText,
          time = Some ''2:30 PM'', category = ''Work'', priority = High, status = Active,
          source = Google\<rparr>]
      in st\<lparr>tasks := filter (\<lambda>t. source t \<noteq> Google) (tasks st) @ googleEvents,
            isSettingsOpen := False\<rparr>)"

definition activeTasks :: "App \<Rightarrow> ParsedTask list" where
  "activeTasks st = filter (\<lambda>task. status task = Active) (tasks st)"

definition completedTasks :: "App \<Rightarrow> ParsedTask list" where
  "completedTasks st = filter (\<lambda>task. status task = Completed) (tasks st)"

text \<open>
  \<open>[...activeTasks].sort((a, b) => priorityOrder[a.priority] - priorityOrder[b.priority])\<close>.
  \<open>Array.prototype.sort\<close> is stable, and for a comparator that is consistent, as a
  difference of integer ranks is, its result is determined: \<open>js_sort\<close> computes it by
  inserting each element, from the right, before the first element it does not compare
  greater than.
\<close>

fun priorityOrder :: "Priority \<Rightarrow> int" where
  "priorityOrder High = 1"
| "priorityOrder Medium = 2"
| "priorityOrder Low = 3"

fun insertBy :: "('a \<Rightarrow> 'a \<Rightarrow> int) \<Rightarrow> 'a \<Rightarrow> 'a list \<Rightarrow> 'a list" where
  "insertBy cmp x [] = [x]"
| "insertBy cmp x (y # ys) = (if cmp x y \<le> 0 then x # y # ys else y # insertBy cmp x ys)"

definition js_sort :: "('a \<Rightarrow> 'a \<Rightarrow> int) \<Rightarrow> 'a list \<Rightarrow> 'a list" where
  "js_sort cmp xs = foldr (insertBy cmp) xs []"

definition sortedActiveTasks :: "App \<Rightarrow> ParsedTask list" where
  "sortedActiveTasks st =
     js_sort (\<lambda>a b. priorityOrder (priority a) - priorityOrder (priority b)) (activeTasks st)"

text \<open>
  Runs of insertions: accepting a candidate at a clock reading, and a sync with its two
  clock readings. \<open>clockAheadRun\<close> says that every reading taken during the run is later
  than every id in the store at that moment, and that the second reading of a sync is
  not earlier than the first.
\<close>

datatype StoreOp = Accept Candidate int | SyncNow int int string string

fun applyStoreOp :: "StoreOp \<Rightarrow> App \<Rightarrow> App" where
  "applyStoreOp (Accept c now) st = handleAccept now (setParsedTask (Some c) st)"
| "applyStoreOp (SyncNow now1 now2 today tomorrow) st = handleSyncNow now1 now2 today tomorrow st"

fun runStoreOps :: "StoreOp list \<Rightarrow> App \<Rightarrow> App" where
  "runStoreOps [] st = st"
| "runStoreOps (x # xs) st = runStoreOps xs (applyStoreOp x st)"

definition laterThanIds :: "int \<Rightarrow> App \<Rightarrow> bool" where
  "laterThanIds now st = list_all (\<lambda>task. idT task < now) (tasks st)"

fun clockAhead :: "StoreOp \<Rightarrow> App \<Rightarrow> bool" where
  "clockAhead (Accept c now) st = laterThanIds now st"
| "clockAhead (SyncNow now1 now2 today tomorrow) st = (laterThanIds now1 st \<and> now1 \<le> now2)"

fun clockAheadRun :: "StoreOp list \<Rightarrow> App \<Rightarrow> bool" where
  "clockAheadRun [] st = True"
| "clockAheadRun (x # xs) st = (clockAhead x st \<and> clockAheadRun xs (applyStoreOp x st))"

text \<open>The timer, when there is one, belongs to a task that is in the store and active.\<close>

definition attachedTaskActive :: "App \<Rightarrow> bool" where
  "attachedTaskActive st =
     (case activeTimer st of
        None \<Rightarrow> True
      | Some t \<Rightarrow> list_ex (\<lambda>task. idT task = taskId t \<and> status task = Active) (tasks st))"

definition candidate1 :: Candidate where
  "candidate1 = \<lparr>c_taskName = ''Call Jake'', c_date = ''July 26, 2024'', c_time = Some ''3:00 PM'',
     c_category = ''Personal'', c_priority = High\<rparr>"

definition syncedTimerApp :: App where
  "syncedTimerApp = handleStartTimer 1000
     (handleSyncNow 1000 1000 ''July 26, 2024'' ''July 27, 2024''
        (handleConnectGoogleCalendar initialApp))"

section \<open>Settings\<close>

text \<open>
  The platform's \<open>parseInt(value, 10)\<close> (ECMA-262): skip leading white space, read an
  optional sign, take the longest prefix of decimal digits; \<open>NaN\<close> when that prefix is
  empty, and otherwise the Number for the signed value of the prefix. A Number is a
  double: the value itself below \<open>2^53\<close>, the nearest double (ties to the even
  mantissa) beyond, and an infinity beyond the largest double. Strings are lists of code
  units below 256, so the white space characters are those of Latin-1.
\<close>

datatype JSNumber = NaN | Num int | Infinity | NegInfinity

definition isWhiteSpace :: "char \<Rightarrow> bool" where
  "isWhiteSpace c = ((of_char c :: nat) \<in> {9, 10, 11, 12, 13, 32, 160})"

definition isDigit :: "char \<Rightarrow> bool" where
  "isDigit c = (48 \<le> (of_char c :: nat) \<and> (of_char c :: nat) \<le> 57)"

definition digitValue :: "char \<Rightarrow> int" where
  "digitValue c = int (of_char c) - 48"

definition digitsValue :: "string \<Rightarrow> int" where
  "digitsValue Z = foldl (\<lambda>acc c. 10 * acc + digitValue c) 0 Z"

fun bitLength :: "nat \<Rightarrow> nat" where
  "bitLength n = (if n = 0 then 0 else Suc (bitLength (n div 2)))"

declare bitLength.simps [simp del]

text \<open>
  The double nearest to a natural number, as the integer it denotes; \<open>None\<close> when the
  number rounds beyond the largest double, \<open>(2^53 - 1) * 2^971\<close>.
\<close>

definition roundToDouble :: "nat \<Rightarrow> nat option" where
  "roundToDouble n =
     (if n < 2 ^ 53 then Some n
      else
        (let e = bitLength n - 53;
             q = n div 2 ^ e;
             r = n mod 2 ^ e;
             q' = (if 2 ^ e < 2 * r \<or> (2 * r = 2 ^ e \<and> odd q) then q + 1 else q)
         in if q' * 2 ^ e < 2 ^ 1024 then Some (q' * 2 ^ e) else None))"

definition parseInt10 :: "string \<Rightarrow> JSNumber" where
  "parseInt10 inputString =
     (let S = dropWhile isWhiteSpace inputString;
          sign = (if S \<noteq> [] \<and> hd S = CHR ''-'' then - 1 else 1);
          S' = (if S \<noteq> [] \<and> (hd S = CHR ''+'' \<or> hd S = CHR ''-'') then tl S else S);
          Z = takeWhile isDigit S'
      in if Z = [] then NaN
         else (case roundToDouble (nat (digitsValue Z)) of
                 Some v \<Rightarrow> Num (sign * int v)
               | None \<Rightarrow> if sign = 1 then Infinity else NegInfinity))"

fun setField :: "SettingsField \<Rightarrow> int \<Rightarrow> PomodoroSettings \<Rightarrow> PomodoroSettings" where
  "setField F_work v prev = prev\<lparr>work := v\<rparr>"
| "setField F_shortBreak v prev = prev\<lparr>shortBreak := v\<rparr>"
| "setField F_longBreak v prev = prev\<lparr>longBreak := v\<rparr>"
| "setField F_cycles v prev = prev\<lparr>cycles := v\<rparr>"

text \<open>
  \<open>handleSettingsChange\<close> stores \<open>numValue\<close> when \<open>!isNaN(numValue) && numValue > 0\<close>. The
  settings of this model hold integers. For \<open>Infinity\<close>, which passes the test, the code
  stores \<open>Infinity\<close>: that state is outside the model, and the result is \<open>None\<close>. Every
  other result is \<open>Some\<close> of the state after the call.
\<close>

definition handleSettingsChange :: "SettingsField \<Rightarrow> string \<Rightarrow> App \<Rightarrow> App option" where
  "handleSettingsChange field val st =
     (case parseInt10 val of
        NaN \<Rightarrow> Some st
      | Num numValue \<Rightarrow>
          Some (if numValue > 0
                then st\<lparr>pomodoroSettings := setField field numValue (pomodoroSettings st)\<rparr>
                else st)
      | Infinity \<Rightarrow> None
      | NegInfinity \<Rightarrow> Some st)"

section \<open>Dates\<close>

text \<open>
  The three \<open>Date\<close> functions of the platform that the program calls are parameters of
  the model: \<open>new Date(s)\<close> followed by the \<open>isNaN\<close> test (\<open>None\<close> for an invalid date),
  \<open>toLocaleDateString('en-US', {month: 'long', day: 'numeric', year: 'numeric'})\<close> and
  \<open>toLocaleTimeString('en-US', {hour: 'numeric', minute: '2-digit', hour12: true})\<close>.
  A point in time is its number of milliseconds since the epoch.
\<close>

record DatePlatform =
  parseDate :: "string \<Rightarrow> int option"
  toLocaleDateString :: "int \<Rightarrow> string"
  toLocaleTimeString :: "int \<Rightarrow> string"

definition parseTaskDateTime :: "DatePlatform \<Rightarrow> ParsedTask \<Rightarrow> int option" where
  "parseTaskDateTime P task =
     (if date task = [] then None
      else
        (let dateTimeString =
               (case time task of
                  Some tm \<Rightarrow> if tm \<noteq> [] then date task @ '' '' @ tm else date task
                | None \<Rightarrow> date task)
         in parseDate P dateTimeString))"

text \<open>
  \<open>handleEventDrop\<close>: \<open>updatedTask\<close> is the record it builds for the task that was moved.
  The event's id is the task's id printed as a string and read back with \<open>Number\<close>.
\<close>

definition updatedTask :: "DatePlatform \<Rightarrow> int \<Rightarrow> bool \<Rightarrow> ParsedTask \<Rightarrow> ParsedTask" where
  "updatedTask P newStartDate allDay task =
     task\<lparr>date := toLocaleDateString P newStartDate,
          time := (if allDay then None else Some (toLocaleTimeString P newStartDate))\<rparr>"

definition handleEventDrop :: "DatePlatform \<Rightarrow> int \<Rightarrow> int \<Rightarrow> bool \<Rightarrow> App \<Rightarrow> App" where
  "handleEventDrop P tid newStartDate allDay st =
     st\<lparr>tasks := map (\<lambda>task. if idT task = tid then updatedTask P newStartDate allDay task
                               else task) (tasks st)\<rparr>"

subsection \<open>The en-US texts in the UTC zone\<close>

text \<open>
  What the platform's formatters write, and what its parser reads from texts of the
  forms they write, when the zone is UTC. Days are counted in the Gregorian calendar:
  \<open>daysBeforeYear y\<close> is the number of days from 1 January of year 1 to 1 January of
  year \<open>y\<close>, and day 0 of the epoch is day 719162 of that count.
\<close>

definition isLeap :: "int \<Rightarrow> bool" where
  "isLeap y = (y mod 4 = 0 \<and> y mod 100 \<noteq> 0 \<or> y mod 400 = 0)"

definition daysInYear :: "int \<Rightarrow> int" where
  "daysInYear y = (if isLeap y then 366 else 365)"

definition daysInMonth :: "int \<Rightarrow> int \<Rightarrow> int" where
  "daysInMonth y m =
     (if m = 2 then (if isLeap y then 29 else 28)
      else if m = 4 \<or> m = 6 \<or> m = 9 \<or> m = 11 then 30 else 31)"

definition daysBeforeYear :: "int \<Rightarrow> int" where
  "daysBeforeYear y = 365 * (y - 1) + (y - 1) div 4 - (y - 1) div 100 + (y - 1) div 400"

definition daysBeforeMonth :: "int \<Rightarrow> int \<Rightarrow> int" where
  "daysBeforeMonth y m = sum_list (map (daysInMonth y) [1..m - 1])"

text \<open>
  The day of the epoch of a calendar date. A day beyond the end of its month counts on
  into the next month, as the platform's parser has it: 30 February is 1 March.
\<close>

definition daysFromCivil :: "int \<Rightarrow> int \<Rightarrow> int \<Rightarrow> int" where
  "daysFromCivil y m d = daysBeforeYear y + daysBeforeMonth y m + d - 1 - 719162"

text \<open>The calendar date of a day of the epoch: find the year, then the month.\<close>

function yearFrom :: "int \<Rightarrow> int \<Rightarrow> int \<times> int" where
  "yearFrom y n = (if n < daysInYear y then (y, n) else yearFrom (y + 1) (n - daysInYear y))"
  by pat_completeness auto
termination
  by (relation "measure (\<lambda>(y, n). nat n)") (auto simp: daysInYear_def split: if_splits)

function monthFrom :: "int \<Rightarrow> int \<Rightarrow> int \<Rightarrow> int \<times> int" where
  "monthFrom y m k =
     (if 12 \<le> m \<or> k < daysInMonth y m then (m, k + 1)
      else monthFrom y (m + 1) (k - daysInMonth y m))"
  by pat_completeness auto
termination
  by (relation "measure (\<lambda>(y, m, k). nat (12 - m))") auto

declare yearFrom.simps [simp del]

declare monthFrom.simps [simp del]

definition civilFromDays :: "int \<Rightarrow> int \<times> int \<times> int" where
  "civilFromDays z =
     (let n = z + 719162 in
      case yearFrom (400 * (n div 146097) + 1) (n mod 146097) of
        (y, doy) \<Rightarrow> (case monthFrom y 1 doy of (m, d) \<Rightarrow> (y, m, d)))"

definition monthNames :: "string list" where
  "monthNames = [''January'', ''February'', ''March'', ''April'', ''May'', ''June'', ''July'',
     ''August'', ''September'', ''October'', ''November'', ''December'']"

definition monthName :: "int \<Rightarrow> string" where
  "monthName m = (if 1 \<le> m \<and> m \<le> 12 then monthNames ! nat (m - 1) else [])"

fun showNat :: "nat \<Rightarrow> string" where
  "showNat n = (if n < 10 then [char_of (48 + n)]
                else showNat (n div 10) @ [char_of (48 + n mod 10)])"

declare showNat.simps [simp del]

definition pad2 :: "nat \<Rightarrow> string" where
  "pad2 n = (if n < 10 then CHR ''0'' # showNat n else showNat n)"

text \<open>``July 26, 2024'' and ``2:30 PM''.\<close>

definition utcDateString :: "int \<Rightarrow> string" where
  "utcDateString ms =
     (case civilFromDays (ms div 86400000) of
        (y, m, d) \<Rightarrow> monthName m @ '' '' @ showNat (nat d) @ '', '' @ showNat (nat y))"

definition utcTimeString :: "int \<Rightarrow> string" where
  "utcTimeString ms =
     (let minutes = (ms div 60000) mod 1440;
          h = minutes div 60;
          h12 = (if h mod 12 = 0 then 12 else h mod 12)
      in showNat (nat h12) @ '':'' @ pad2 (nat (minutes mod 60)) @
         (if h < 12 then '' AM'' else '' PM''))"

text \<open>
  The parser, on a date of the form ``July 26, 2024'', alone or followed by a time of
  the form ``2:30 PM'' or ``14:30''. A year below 100 is left out, since the platform
  reads it as a year of the twentieth or twenty-first century, and so is a result
  outside the range of \<open>Date\<close>. \<open>None\<close> says that the text is not of these forms: what
  the platform's parser makes of such a text is not described here.
\<close>

definition readNat :: "string \<Rightarrow> int option" where
  "readNat s = (if s \<noteq> [] \<and> list_all isDigit s then Some (digitsValue s) else None)"

fun splitOn :: "char \<Rightarrow> string \<Rightarrow> string list" where
  "splitOn sep [] = [[]]"
| "splitOn sep (c # cs) =
     (if c = sep then [] # splitOn sep cs
      else (case splitOn sep cs of w # ws \<Rightarrow> (c # w) # ws | [] \<Rightarrow> [[c]]))"

fun indexOf :: "'a \<Rightarrow> 'a list \<Rightarrow> int option" where
  "indexOf x [] = None"
| "indexOf x (y # ys) = (if x = y then Some 0 else map_option (\<lambda>i. i + 1) (indexOf x ys))"

definition readDate :: "string \<Rightarrow> string \<Rightarrow> string \<Rightarrow> int option" where
  "readDate mon day year =
     (case (indexOf mon monthNames,
            if day \<noteq> [] \<and> last day = CHR '','' then readNat (butlast day) else None,
            readNat year) of
        (Some m, Some d, Some y) \<Rightarrow>
          if 1 \<le> d \<and> d \<le> 31 \<and> 100 \<le> y
          then Some (daysFromCivil y (m + 1) d * 86400000) else None
      | _ \<Rightarrow> None)"

definition readClock :: "string \<Rightarrow> (int \<times> int) option" where
  "readClock hm =
     (case splitOn CHR '':'' hm of
        [hs, ms] \<Rightarrow>
          (case (readNat hs, readNat ms) of
             (Some h, Some mi) \<Rightarrow> if length ms = 2 \<and> mi < 60 then Some (h, mi) else None
           | _ \<Rightarrow> None)
      | _ \<Rightarrow> None)"

definition readTime12 :: "string \<Rightarrow> string \<Rightarrow> int option" where
  "readTime12 hm ampm =
     (case readClock hm of
        Some (h, mi) \<Rightarrow>
          if 1 \<le> h \<and> h \<le> 12 \<and> (ampm = ''AM'' \<or> ampm = ''PM'')
          then Some (((h mod 12 + (if ampm = ''PM'' then 12 else 0)) * 60 + mi) * 60000)
          else None
      | None \<Rightarrow> None)"

definition readTime24 :: "string \<Rightarrow> int option" where
  "readTime24 hm =
     (case readClock hm of
        Some (h, mi) \<Rightarrow> if h \<le> 23 then Some ((h * 60 + mi) * 60000) else None
      | None \<Rightarrow> None)"

definition timeClip :: "int \<Rightarrow> int option" where
  "timeClip v = (if \<bar>v\<bar> \<le> 8640000000000000 then Some v else None)"

definition utcParse :: "string \<Rightarrow> int option" where
  "utcParse s =
     (case splitOn CHR '' '' s of
        [mon, day, year] \<Rightarrow>
          (case readDate mon day year of Some d \<Rightarrow> timeClip d | None \<Rightarrow> None)
      | [mon, day, year, hm] \<Rightarrow>
          (case (readDate mon day year, readTime24 hm) of
             (Some d, Some t) \<Rightarrow> timeClip (d + t)
           | _ \<Rightarrow> None)
      | [mon, day, year, hm, ampm] \<Rightarrow>
          (case (readDate mon day year, readTime12 hm ampm) of
             (Some d, Some t) \<Rightarrow> timeClip (d + t)
           | _ \<Rightarrow> None)
      | _ \<Rightarrow> None)"

text \<open>
  The timestamps from 1 January of year 100 to the end of the range of \<open>Date\<close>, and the
  platforms this part of the theory is about: on those timestamps the formatters write
  the texts above, and the parser reads the texts of the forms above as above, whatever
  else it reads.
\<close>

definition inRange :: "int \<Rightarrow> bool" where
  "inRange t = (- 59011459200000 \<le> t \<and> t \<le> 8640000000000000)"

definition usEnglishUTC :: "DatePlatform \<Rightarrow> bool" where
  "usEnglishUTC P =
     ((\<forall>t. inRange t \<longrightarrow>
          toLocaleDateString P t = utcDateString t \<and> toLocaleTimeString P t = utcTimeString t)
      \<and> (\<forall>s v. utcParse s = Some v \<longrightarrow> parseDate P s = Some v))"

text \<open>The platform of that kind whose parser reads nothing but the texts of these forms.\<close>

definition utcPlatform :: DatePlatform where
  "utcPlatform = \<lparr>parseDate = utcParse, toLocaleDateString = utcDateString,
     toLocaleTimeString = utcTimeString\<rparr>"

text \<open>Example states and tasks.\<close>

definition roundedInput :: string where
  "roundedInput = ''9007199254740993''"

definition hugeInput :: string where
  "hugeInput = CHR ''1'' # replicate 309 (CHR ''0'')"

definition mixedStoreApp :: App where
  "mixedStoreApp = initialApp\<lparr>tasks :=
     [\<lparr>idT = 1, taskName = ''a'', date = ''July 26, 2024'', time = None, category = ''Work'',
       priority = Low, status = Active, source = Lucid\<rparr>,
      \<lparr>idT = 2, taskName = ''b'', date = ''July 26, 2024'', time = None, category = ''Work'',
       priority = High, status = Active, source = Lucid\<rparr>,
      \<lparr>idT = 3, taskName = ''c'', date = ''July 26, 2024'', time = None, category = ''Work'',
       priority = High, status = Completed, source = Lucid\<rparr>,
      \<lparr>idT = 4, taskName = ''d'', date = ''July 26, 2024'', time = None, category = ''Work'',
       priority = High, status = Active, source = Google\<rparr>,
      \<lparr>idT = 5, taskName = ''e'', date = ''July 26, 2024'', time = None, category = ''Work'',
       priority = Medium, status = Active, source = Lucid\<rparr>,
      \<lparr>idT = 6, taskName = ''f'', date = ''July 26, 2024'', time = None, category = ''Work'',
       priority = Low, status = Active, source = Lucid\<rparr>]\<rparr>"

definition timedTask :: ParsedTask where
  "timedTask = \<lparr>idT = 1, taskName = ''Call Jake'', date = ''July 26, 2024'',
     time = Some ''2:30 PM'', category = ''Personal'', priority = High, status = Active,
     source = Lucid\<rparr>"

section \<open>Properties of the timer\<close>

lemma js_rem_zero_iff: "0 < b \<Longrightarrow> (js_rem a b = Some 0) = (a mod b = 0)"
  by (auto simp: js_rem_def sgn_if abs_if mod_eq_0_iff_dvd zmod_zminus1_eq_if split: if_splits)

lemma transition_work:
  assumes "0 < cycles (pomodoroSettings st)" and "mode t = Work"
  shows "transitionToNextMode t st =
     st\<lparr>activeTimer := Some (t\<lparr>
        mode := (if (cycleCount t + 1) mod cycles (pomodoroSettings st) = 0 then LongBreak else ShortBreak),
        timeLeft := (if (cycleCount t + 1) mod cycles (pomodoroSettings st) = 0
                     then longBreak (pomodoroSettings st) else shortBreak (pomodoroSettings st)) * 60,
        cycleCount := cycleCount t + 1\<rparr>)\<rparr>"
  using assms by (simp add: transitionToNextMode_def Let_def js_rem_zero_iff setActiveTimer_def)

lemma transition_break:
  assumes "mode t \<noteq> Work"
  shows "transitionToNextMode t st =
     st\<lparr>activeTimer := Some (t\<lparr>mode := Work, timeLeft := work (pomodoroSettings st) * 60\<rparr>)\<rparr>"
  using assms by (simp add: transitionToNextMode_def setActiveTimer_def)

lemma settings_transition [simp]: "pomodoroSettings (transitionToNextMode t st) = pomodoroSettings st"
  by (simp add: transitionToNextMode_def setActiveTimer_def Let_def)

lemma settings_start [simp]: "pomodoroSettings (handleStartTimer b st) = pomodoroSettings st"
  by (simp add: handleStartTimer_def setActiveTimer_def Let_def)

lemma settings_skip [simp]: "pomodoroSettings (handleSkip st) = pomodoroSettings st"
  by (simp add: handleSkip_def split: option.splits)

lemma settings_setActiveTimer [simp]: "pomodoroSettings (setActiveTimer v st) = pomodoroSettings st"
  by (simp add: setActiveTimer_def)

lemma settings_applyTimerOp [simp]: "pomodoroSettings (applyTimerOp x st) = pomodoroSettings st"
  by (cases x)
     (simp_all add: timerTick_def handlePauseResumeTimer_def split: option.splits UpdateOrder.splits)

lemma handleSkip_Some: "activeTimer st = Some t \<Longrightarrow> handleSkip st = transitionToNextMode t st"
  by (simp add: handleSkip_def)

lemma skip_run:
  fixes n :: nat
  assumes c: "0 < cycles (pomodoroSettings st)"
  shows "activeTimer ((handleSkip ^^ (2 * n)) (handleStartTimer b st)) =
           Some \<lparr>taskId = b, timeLeft = work (pomodoroSettings st) * 60, mode = Work,
                 cycleCount = int n, isPaused = False\<rparr>
       \<and> pomodoroSettings ((handleSkip ^^ (2 * n)) (handleStartTimer b st)) = pomodoroSettings st"
proof (induction n)
  case 0
  show ?case by (simp add: handleStartTimer_def setActiveTimer_def)
next
  case (Suc n)
  define s0 where "s0 = (handleSkip ^^ (2 * n)) (handleStartTimer b st)"
  define t0 where "t0 = \<lparr>taskId = b, timeLeft = work (pomodoroSettings st) * 60, mode = Work,
                 cycleCount = int n, isPaused = False\<rparr>"
  have a0: "activeTimer s0 = Some t0" and p0: "pomodoroSettings s0 = pomodoroSettings st"
    using Suc by (simp_all add: s0_def t0_def)
  define s1 where "s1 = handleSkip s0"
  have e1: "s1 = transitionToNextMode t0 s0"
    unfolding s1_def using a0 by (rule handleSkip_Some)
  have m0: "mode t0 = Work" by (simp add: t0_def)
  have c0: "0 < cycles (pomodoroSettings s0)" using c p0 by simp
  obtain t1 where a1: "activeTimer s1 = Some t1" and m1: "mode t1 \<noteq> Work"
    and t1: "taskId t1 = b" "cycleCount t1 = int n + 1" "isPaused t1 = False"
    unfolding e1 transition_work [OF c0 m0] by (simp add: t0_def)
  have p1: "pomodoroSettings s1 = pomodoroSettings st" by (simp add: s1_def p0)
  have e2: "handleSkip s1 = transitionToNextMode t1 s1"
    using a1 by (rule handleSkip_Some)
  have "(handleSkip ^^ (2 * Suc n)) (handleStartTimer b st) = handleSkip s1"
    by (simp add: s1_def s0_def)
  moreover have "activeTimer (handleSkip s1) = Some \<lparr>taskId = b, timeLeft = work (pomodoroSettings st) * 60, mode = Work,
                 cycleCount = int (Suc n), isPaused = False\<rparr>"
    unfolding e2 transition_break [OF m1] using t1 p1 by simp
  moreover have "pomodoroSettings (handleSkip s1) = pomodoroSettings st" using p1 by simp
  ultimately show ?case by simp
qed

lemma positive_initial: "positiveSettings (pomodoroSettings initialApp)"
  by (simp add: positiveSettings_def positiveDurations_def initialApp_def DEFAULT_SETTINGS_def)

text \<open>
  Claim C2. Under a configuration with positive \<open>work\<close>, \<open>shortBreak\<close>, \<open>longBreak\<close> and
  \<open>cycles\<close>, a transition out of \<open>Work\<close> adds one to \<open>cycleCount\<close>, goes to \<open>LongBreak\<close>
  when the new count is a multiple of \<open>cycles\<close> and to \<open>ShortBreak\<close> otherwise, and sets
  \<open>timeLeft\<close> to the chosen mode's minutes times 60; a transition out of a break goes to
  \<open>Work\<close> with \<open>timeLeft = work * 60\<close> and the count unchanged. Hence, counting from
  \<open>handleStartTimer\<close>, the break that follows the \<open>(n+1)\<close>-th completed work interval is
  the long one exactly when \<open>n+1\<close> is a multiple of \<open>cycles\<close>.
\<close>

theorem mode_transition_cycle:
  assumes "positiveSettings (pomodoroSettings st)"
  shows "transitionToNextMode t st =
           st\<lparr>activeTimer := Some
             (if mode t = Work then
                (if (cycleCount t + 1) mod cycles (pomodoroSettings st) = 0
                 then t\<lparr>mode := LongBreak, timeLeft := longBreak (pomodoroSettings st) * 60,
                        cycleCount := cycleCount t + 1\<rparr>
                 else t\<lparr>mode := ShortBreak, timeLeft := shortBreak (pomodoroSettings st) * 60,
                        cycleCount := cycleCount t + 1\<rparr>)
              else t\<lparr>mode := Work, timeLeft := work (pomodoroSettings st) * 60\<rparr>)\<rparr>
       \<and> activeTimer ((handleSkip ^^ (2 * n + 1)) (handleStartTimer b st)) =
           Some \<lparr>taskId = b,
                 timeLeft = (if (int n + 1) mod cycles (pomodoroSettings st) = 0
                             then longBreak (pomodoroSettings st)
                             else shortBreak (pomodoroSettings st)) * 60,
                 mode = (if (int n + 1) mod cycles (pomodoroSettings st) = 0
                         then LongBreak else ShortBreak),
                 cycleCount = int n + 1, isPaused = False\<rparr>"
proof -
  have c: "0 < cycles (pomodoroSettings st)"
    using assms by (simp add: positiveSettings_def)
  have step: "transitionToNextMode t st =
           st\<lparr>activeTimer := Some
             (if mode t = Work then
                (if (cycleCount t + 1) mod cycles (pomodoroSettings st) = 0
                 then t\<lparr>mode := LongBreak, timeLeft := longBreak (pomodoroSettings st) * 60,
                        cycleCount := cycleCount t + 1\<rparr>
                 else t\<lparr>mode := ShortBreak, timeLeft := shortBreak (pomodoroSettings st) * 60,
                        cycleCount := cycleCount t + 1\<rparr>)
              else t\<lparr>mode := Work, timeLeft := work (pomodoroSettings st) * 60\<rparr>)\<rparr>"
  proof (cases "mode t = Work")
    case True
    then show ?thesis by (simp add: transition_work [OF c True])
  next
    case False
    then show ?thesis by (simp add: transition_break [OF False])
  qed
  define s0 where "s0 = (handleSkip ^^ (2 * n)) (handleStartTimer b st)"
  define t0 where "t0 = \<lparr>taskId = b, timeLeft = work (pomodoroSettings st) * 60, mode = Work,
                 cycleCount = int n, isPaused = False\<rparr>"
  have a0: "activeTimer s0 = Some t0" and p0: "pomodoroSettings s0 = pomodoroSettings st"
    using skip_run [OF c, where b = b and n = n] by (simp_all add: s0_def t0_def)
  have c0: "0 < cycles (pomodoroSettings s0)" using c p0 by simp
  have m0: "mode t0 = Work" by (simp add: t0_def)
  have "(handleSkip ^^ (2 * n + 1)) (handleStartTimer b st) = handleSkip s0"
    by (simp add: s0_def)
  also have "\<dots> = transitionToNextMode t0 s0"
    using a0 by (rule handleSkip_Some)
  finally have "activeTimer ((handleSkip ^^ (2 * n + 1)) (handleStartTimer b st)) =
      activeTimer (transitionToNextMode t0 s0)" by simp
  also have "\<dots> = Some \<lparr>taskId = b,
                 timeLeft = (if (int n + 1) mod cycles (pomodoroSettings st) = 0
                             then longBreak (pomodoroSettings st)
                             else shortBreak (pomodoroSettings st)) * 60,
                 mode = (if (int n + 1) mod cycles (pomodoroSettings st) = 0
                         then LongBreak else ShortBreak),
                 cycleCount = int n + 1, isPaused = False\<rparr>"
    unfolding transition_work [OF c0 m0] by (simp add: t0_def p0)
  finally show ?thesis using step by simp
qed

text \<open>
  Claim C2 at the default configuration \<open>(25, 5, 15, 4)\<close>: the fourth completed work
  interval ends in a long break of 900 seconds with \<open>cycleCount = 4\<close>.
\<close>

theorem mode_transition_cycle_witness:
  "positiveSettings (pomodoroSettings initialApp)
   \<and> activeTimer (transitionToNextMode
         \<lparr>taskId = 1, timeLeft = 1, mode = Work, cycleCount = 3, isPaused = False\<rparr> initialApp) =
       Some \<lparr>taskId = 1, timeLeft = 900, mode = LongBreak, cycleCount = 4, isPaused = False\<rparr>
   \<and> activeTimer ((handleSkip ^^ 7) (handleStartTimer 9 initialApp)) =
       Some \<lparr>taskId = 9, timeLeft = 900, mode = LongBreak, cycleCount = 4, isPaused = False\<rparr>"
proof -
  have h: "positiveSettings (pomodoroSettings initialApp)"
    by (rule positive_initial)
  have s: "pomodoroSettings initialApp = DEFAULT_SETTINGS"
    by (simp add: initialApp_def)
  have n: "2 * 3 + 1 = (7::nat)" by simp
  note r = mode_transition_cycle [OF h,
      where t = "\<lparr>taskId = 1, timeLeft = 1, mode = Work, cycleCount = 3, isPaused = False\<rparr>"
        and n = 3 and b = 9]
  have a: "activeTimer (transitionToNextMode
         \<lparr>taskId = 1, timeLeft = 1, mode = Work, cycleCount = 3, isPaused = False\<rparr> initialApp) =
       Some \<lparr>taskId = 1, timeLeft = 900, mode = LongBreak, cycleCount = 4, isPaused = False\<rparr>"
    using r by (simp add: s DEFAULT_SETTINGS_def)
  have b: "activeTimer ((handleSkip ^^ 7) (handleStartTimer 9 initialApp)) =
       Some \<lparr>taskId = 9, timeLeft = 900, mode = LongBreak, cycleCount = 4, isPaused = False\<rparr>"
    using conjunct2 [OF r] unfolding n by (simp add: s DEFAULT_SETTINGS_def)
  show ?thesis using h a b by simp
qed

text \<open>
  Claim C3 says that every mode transition clears \<open>isPaused\<close>. It does not: start a
  timer, pause it, skip; the timer in the next mode is still paused.
\<close>

theorem skip_paused_counterexample:
  "map_option isPaused (activeTimer pausedTimerApp) = Some True
   \<and> map_option isPaused (activeTimer (handleSkip pausedTimerApp)) = Some True"
  by (simp add: pausedTimerApp_def handleSkip_def handlePauseResumeTimer_def
      handleStartTimer_def setActiveTimer_def transitionToNextMode_def Let_def)

lemma paused_transition: "map_option isPaused (activeTimer (transitionToNextMode t st)) = Some (isPaused t)"
  by (simp add: transitionToNextMode_def setActiveTimer_def Let_def)

text \<open>
  Claim C3, amended. A mode transition leaves \<open>isPaused\<close> as it was: after \<open>handleSkip\<close>
  the timer is paused exactly if it was before. The countdown never moves a paused timer:
  a tick leaves it unchanged; so whatever timer a tick leaves is paused exactly if the
  timer before was, and a timer that the countdown has moved to the next mode is not
  paused.
\<close>

theorem transition_keeps_pause:
  assumes "activeTimer st = Some t"
  shows "map_option isPaused (activeTimer (handleSkip st)) = Some (isPaused t)
       \<and> map_option isPaused (activeTimer (transitionToNextMode t st)) = Some (isPaused t)
       \<and> (isPaused t \<longrightarrow> timerTick order st = st)
       \<and> (activeTimer (timerTick order st) = None
          \<or> map_option isPaused (activeTimer (timerTick order st)) = Some (isPaused t))"
proof -
  have 1: "map_option isPaused (activeTimer (handleSkip st)) = Some (isPaused t)"
    using assms by (simp add: handleSkip_def paused_transition)
  have 2: "isPaused t \<longrightarrow> timerTick order st = st"
    using assms by (simp add: timerTick_def)
  have 3: "activeTimer (timerTick order st) = None
          \<or> map_option isPaused (activeTimer (timerTick order st)) = Some (isPaused t)"
  proof (cases "isPaused t \<or> 1 < timeLeft t")
    case True
    then show ?thesis using assms by (auto simp: timerTick_def setActiveTimer_def)
  next
    case False
    show ?thesis
    proof (cases order)
      case NestedLast
      then have "timerTick order st = transitionToNextMode t (setActiveTimer None st)"
        using assms False by (simp add: timerTick_def)
      then show ?thesis by (simp add: paused_transition)
    next
      case UpdaterLast
      then have "timerTick order st = setActiveTimer None (transitionToNextMode t st)"
        using assms False by (simp add: timerTick_def)
      then show ?thesis by (simp add: setActiveTimer_def)
    qed
  qed
  show ?thesis using 1 2 3 paused_transition [of t st] by blast
qed

text \<open>
  Claim C3, amended, on a paused timer, which a skip moves to the short break still
  paused and a tick leaves alone, and on a running timer in its last second.
\<close>

theorem transition_keeps_pause_witness:
  "activeTimer pausedTimerApp =
     Some \<lparr>taskId = 1, timeLeft = 1500, mode = Work, cycleCount = 0, isPaused = True\<rparr>
   \<and> activeTimer (handleSkip pausedTimerApp) =
     Some \<lparr>taskId = 1, timeLeft = 300, mode = ShortBreak, cycleCount = 1, isPaused = True\<rparr>
   \<and> timerTick NestedLast pausedTimerApp = pausedTimerApp
   \<and> activeTimer lastSecondApp =
     Some \<lparr>taskId = 1, timeLeft = 1, mode = Work, cycleCount = 3, isPaused = False\<rparr>
   \<and> map_option isPaused (activeTimer (handleSkip lastSecondApp)) = Some False
   \<and> activeTimer (timerTick NestedLast lastSecondApp) =
     Some \<lparr>taskId = 1, timeLeft = 900, mode = LongBreak, cycleCount = 4, isPaused = False\<rparr>"
proof -
  have p: "activeTimer pausedTimerApp =
     Some \<lparr>taskId = 1, timeLeft = 1500, mode = Work, cycleCount = 0, isPaused = True\<rparr>"
    by (simp add: pausedTimerApp_def handlePauseResumeTimer_def handleStartTimer_def
        setActiveTimer_def initialApp_def DEFAULT_SETTINGS_def)
  have l: "activeTimer lastSecondApp =
     Some \<lparr>taskId = 1, timeLeft = 1, mode = Work, cycleCount = 3, isPaused = False\<rparr>"
    by (simp add: lastSecondApp_def)
  note a = transition_keeps_pause [OF p, of NestedLast]
  note b = transition_keeps_pause [OF l, of NestedLast]
  have 1: "activeTimer (handleSkip pausedTimerApp) =
     Some \<lparr>taskId = 1, timeLeft = 300, mode = ShortBreak, cycleCount = 1, isPaused = True\<rparr>"
    using p by (simp add: handleSkip_def transitionToNextMode_def setActiveTimer_def js_rem_def
        pausedTimerApp_def handlePauseResumeTimer_def handleStartTimer_def initialApp_def
        DEFAULT_SETTINGS_def)
  have 2: "timerTick NestedLast pausedTimerApp = pausedTimerApp"
    using a by simp
  have 3: "map_option isPaused (activeTimer (handleSkip lastSecondApp)) = Some False"
    using b by simp
  have 4: "activeTimer (timerTick NestedLast lastSecondApp) =
     Some \<lparr>taskId = 1, timeLeft = 900, mode = LongBreak, cycleCount = 4, isPaused = False\<rparr>"
    by (simp add: timerTick_def transitionToNextMode_def setActiveTimer_def js_rem_def
        lastSecondApp_def initialApp_def DEFAULT_SETTINGS_def)
  show ?thesis using p l 1 2 3 4 by simp
qed

text \<open>
  What a tick does, for either order of its writes: nothing without a timer or on a
  paused timer; one second less while more than one second is left; in the last second,
  the mode transition when the nested write is applied last, and no timer when the
  updater's \<open>null\<close> is applied last.
\<close>

lemma tick_without_timer: "activeTimer st = None \<Longrightarrow> timerTick order st = st"
  by (simp add: timerTick_def)

lemma tick_step:
  assumes "activeTimer st = Some t"
  shows "timerTick order st =
           (if isPaused t then st
            else if 1 < timeLeft t then st\<lparr>activeTimer := Some (t\<lparr>timeLeft := timeLeft t - 1\<rparr>)\<rparr>
            else (case order of
                    NestedLast \<Rightarrow> transitionToNextMode t st
                  | UpdaterLast \<Rightarrow> st\<lparr>activeTimer := None\<rparr>))"
  using assms
  by (cases order)
     (simp_all add: timerTick_def setActiveTimer_def transitionToNextMode_def Let_def)

text \<open>
  Two invariants of every run of ticks, pause/resume and skips, for either order of the
  writes of each tick: a timer, when there is one, has at least one second left (under
  positive durations), and a break is the long one exactly when \<open>cycleCount\<close> is a
  multiple of \<open>cycles\<close> (under a positive \<open>cycles\<close>).
\<close>

lemma seconds_transition:
  "positiveDurations (pomodoroSettings st) \<Longrightarrow> secondsLeft (transitionToNextMode t st)"
  by (simp add: secondsLeft_def transitionToNextMode_def setActiveTimer_def Let_def
      positiveDurations_def)

lemma match_transition:
  assumes "0 < cycles (pomodoroSettings st)"
  shows "breakMatches (transitionToNextMode t st)"
proof (cases "mode t = Work")
  case True
  show ?thesis
    unfolding transition_work [OF assms True]
    by (simp add: breakMatches_def breakMatchesCount_def)
next
  case False
  show ?thesis
    unfolding transition_break [OF False]
    by (simp add: breakMatches_def breakMatchesCount_def)
qed

lemma invariants_applyTimerOp:
  assumes "positiveSettings (pomodoroSettings st)" and "secondsLeft st \<and> breakMatches st"
  shows "secondsLeft (applyTimerOp x st) \<and> breakMatches (applyTimerOp x st)"
proof (cases "activeTimer st")
  case None
  then have "applyTimerOp x st = st"
    by (cases x) (simp_all add: timerTick_def handlePauseResumeTimer_def handleSkip_def
        setActiveTimer_def)
  then show ?thesis using assms(2) by simp
next
  case (Some t)
  have d: "positiveDurations (pomodoroSettings st)" and c: "0 < cycles (pomodoroSettings st)"
    using assms(1) by (simp_all add: positiveSettings_def)
  have t: "1 \<le> timeLeft t" "breakMatchesCount (pomodoroSettings st) t"
    using assms(2) Some by (simp_all add: secondsLeft_def breakMatches_def)
  show ?thesis
  proof (cases x)
    case (Tick order)
    show ?thesis
    proof (cases "isPaused t \<or> 1 < timeLeft t")
      case True
      then show ?thesis using Tick Some t
        by (auto simp: tick_step [OF Some] secondsLeft_def breakMatches_def
            breakMatchesCount_def split: Mode.splits)
    next
      case False
      show ?thesis
      proof (cases order)
        case NestedLast
        then have "applyTimerOp x st = transitionToNextMode t st"
          using Tick False by (simp add: tick_step [OF Some])
        then show ?thesis using d c by (simp add: seconds_transition match_transition)
      next
        case UpdaterLast
        then have "applyTimerOp x st = st\<lparr>activeTimer := None\<rparr>"
          using Tick False by (simp add: tick_step [OF Some])
        then show ?thesis by (simp add: secondsLeft_def breakMatches_def)
      qed
    qed
  next
    case PauseResume
    then show ?thesis using Some t
      by (auto simp: handlePauseResumeTimer_def secondsLeft_def breakMatches_def
          breakMatchesCount_def setActiveTimer_def split: Mode.splits)
  next
    case Skip
    have "handleSkip st = transitionToNextMode t st"
      using Some by (rule handleSkip_Some)
    then show ?thesis using Skip d c by (simp add: seconds_transition match_transition)
  qed
qed

lemma settings_run [simp]: "pomodoroSettings (runTimerOps ops st) = pomodoroSettings st"
  by (induction ops arbitrary: st) simp_all

lemma invariants_run:
  "positiveSettings (pomodoroSettings st) \<Longrightarrow> secondsLeft st \<and> breakMatches st \<Longrightarrow>
   secondsLeft (runTimerOps ops st) \<and> breakMatches (runTimerOps ops st)"
proof (induction ops arbitrary: st)
  case Nil
  then show ?case by simp
next
  case (Cons x xs)
  have "secondsLeft (applyTimerOp x st) \<and> breakMatches (applyTimerOp x st)"
    using Cons.prems by (rule invariants_applyTimerOp)
  moreover have "positiveSettings (pomodoroSettings (applyTimerOp x st))"
    using Cons.prems(1) by simp
  ultimately show ?case using Cons.IH by simp
qed

lemma invariants_from_start:
  assumes "positiveSettings (pomodoroSettings st)"
  shows "secondsLeft (runTimerOps ops (handleStartTimer b st))
       \<and> breakMatches (runTimerOps ops (handleStartTimer b st))"
proof -
  have "secondsLeft (handleStartTimer b st) \<and> breakMatches (handleStartTimer b st)"
    using assms
    by (simp add: secondsLeft_def breakMatches_def breakMatchesCount_def handleStartTimer_def
        setActiveTimer_def positiveSettings_def positiveDurations_def)
  moreover have "positiveSettings (pomodoroSettings (handleStartTimer b st))"
    using assms by simp
  ultimately show ?thesis by (rule invariants_run [rotated])
qed

text \<open>
  Claim C4 says that the tick that brings the countdown to its end performs the mode
  transition. The timer below is in the last second of its fourth work interval. When
  the nested write is applied last, the tick moves it to the long break, as the claim
  and the source's comments say. When the updater's \<open>null\<close> is applied last, the tick
  leaves no timer: there is no transition, and the countdown is gone.
\<close>

theorem tick_discards_timer:
  "activeTimer lastSecondApp =
     Some \<lparr>taskId = 1, timeLeft = 1, mode = Work, cycleCount = 3, isPaused = False\<rparr>
   \<and> activeTimer (timerTick NestedLast lastSecondApp) =
     Some \<lparr>taskId = 1, timeLeft = 900, mode = LongBreak, cycleCount = 4, isPaused = False\<rparr>
   \<and> activeTimer (timerTick UpdaterLast lastSecondApp) = None"
  by (simp add: timerTick_def transitionToNextMode_def setActiveTimer_def js_rem_def
      lastSecondApp_def initialApp_def DEFAULT_SETTINGS_def)


text \<open>
  Claim C1 says that starting a timer for task 2 while one is active for task 1 fails and
  leaves the existing timer unchanged. \<open>handleStartTimer\<close> has no such check: it replaces
  the timer.
\<close>

theorem start_conflict_counterexample:
  "activeTimer otherTimerApp =
     Some \<lparr>taskId = 1, timeLeft = 700, mode = ShortBreak, cycleCount = 2, isPaused = True\<rparr>
   \<and> activeTimer (handleStartTimer 2 otherTimerApp) =
     Some \<lparr>taskId = 2, timeLeft = 1500, mode = Work, cycleCount = 0, isPaused = False\<rparr>"
  by (simp add: otherTimerApp_def handleStartTimer_def setActiveTimer_def initialApp_def
      DEFAULT_SETTINGS_def)

text \<open>
  Claim C1, amended. \<open>handleStartTimer b\<close> never fails and always installs the timer
  \<open>(b, work * 60, Work, 0, False)\<close>, replacing any timer there is. What keeps a second
  timer from starting is the button: while a timer is active the ``Start Timer'' button
  of every other task is disabled, so a click leaves the state unchanged, and no error is
  raised. With no active timer the click installs the timer above.
\<close>

theorem start_replaces_or_is_disabled:
  assumes "activeTimer st = Some t"
  shows "handleStartTimer b st =
           st\<lparr>activeTimer := Some \<lparr>taskId = b, timeLeft = work (pomodoroSettings st) * 60,
                mode = Work, cycleCount = 0, isPaused = False\<rparr>\<rparr>
       \<and> startTimerButton b st = st
       \<and> startTimerButton b (st\<lparr>activeTimer := None\<rparr>) =
           st\<lparr>activeTimer := Some \<lparr>taskId = b, timeLeft = work (pomodoroSettings st) * 60,
                mode = Work, cycleCount = 0, isPaused = False\<rparr>\<rparr>"
  using assms by (simp add: handleStartTimer_def startTimerButton_def setActiveTimer_def)

text \<open>Claim C1, amended, on a state with a paused timer for task 1.\<close>

theorem start_replaces_or_is_disabled_witness:
  "activeTimer otherTimerApp =
     Some \<lparr>taskId = 1, timeLeft = 700, mode = ShortBreak, cycleCount = 2, isPaused = True\<rparr>
   \<and> startTimerButton 2 otherTimerApp = otherTimerApp
   \<and> activeTimer (startTimerButton 2 (otherTimerApp\<lparr>activeTimer := None\<rparr>)) =
       Some \<lparr>taskId = 2, timeLeft = 1500, mode = Work, cycleCount = 0, isPaused = False\<rparr>"
proof -
  have h: "activeTimer otherTimerApp =
     Some \<lparr>taskId = 1, timeLeft = 700, mode = ShortBreak, cycleCount = 2, isPaused = True\<rparr>"
    by (simp add: otherTimerApp_def)
  have w: "work (pomodoroSettings otherTimerApp) = 25"
    by (simp add: otherTimerApp_def initialApp_def DEFAULT_SETTINGS_def)
  show ?thesis using h start_replaces_or_is_disabled [OF h, of 2] by (simp add: w)
qed

section \<open>Properties of the task store\<close>

lemma ids_accept:
  "map idT (tasks (handleAccept now st)) =
     map idT (tasks st) @ (case parsedTask st of None \<Rightarrow> [] | Some p \<Rightarrow> [now])"
  by (simp add: handleAccept_def Let_def split: option.splits)

lemma ids_sync:
  "map idT (tasks (handleSyncNow n1 n2 a b st)) =
     map idT (filter (\<lambda>t. source t \<noteq> Google) (tasks st)) @ [n1, n2 + 1]"
  by (simp add: handleSyncNow_def Let_def)

lemma later_not_member: "laterThanIds now st \<Longrightarrow> now \<notin> set (map idT (tasks st))"
  by (auto simp: laterThanIds_def list_all_iff)

lemma distinct_applyStoreOp:
  assumes "distinct (map idT (tasks st))" and "clockAhead x st"
  shows "distinct (map idT (tasks (applyStoreOp x st)))"
proof (cases x)
  case (Accept c now)
  then show ?thesis
    using assms later_not_member [of now st]
    by (simp add: ids_accept setParsedTask_def laterThanIds_def)
next
  case (SyncNow n1 n2 a b)
  have d: "distinct (map idT (filter (\<lambda>t. source t \<noteq> Google) (tasks st)))"
    using assms(1) by (simp add: distinct_map_filter)
  have l: "list_all (\<lambda>task. idT task < n1) (tasks st)" "n1 \<le> n2"
    using assms(2) SyncNow by (simp_all add: laterThanIds_def)
  then have "n1 \<notin> idT ` set (tasks st)" "n2 + 1 \<notin> idT ` set (tasks st)"
    by (auto simp: list_all_iff)
  then show ?thesis using SyncNow d l(2) by (auto simp: ids_sync)
qed

text \<open>
  Claim C5, amended. An id is the clock reading at the insertion (for the second event
  of a sync, the reading plus one); nothing compares it with the ids in the store. If
  the store has pairwise different ids and every clock reading taken during a run of
  accepts and syncs is later than every id then in the store, the store after the run
  has pairwise different ids.
\<close>

theorem ids_unique_under_fresh_clock:
  assumes "distinct (map idT (tasks st))" and "clockAheadRun ops st"
  shows "distinct (map idT (tasks (runStoreOps ops st)))"
  using assms
proof (induction ops arbitrary: st)
  case Nil
  then show ?case by simp
next
  case (Cons x xs)
  have "distinct (map idT (tasks (applyStoreOp x st)))"
    using Cons.prems by (simp add: distinct_applyStoreOp)
  then show ?case using Cons.IH Cons.prems(2) by simp
qed

text \<open>
  Claim C5 says that every insertion assigns an id that no task in the store holds. A
  sync at clock reading 1000 gives its second event the id 1001; a candidate accepted
  one millisecond later gets the id 1001 too.
\<close>

theorem ids_collide_counterexample:
  "map idT (tasks (runStoreOps
      [SyncNow 1000 1000 ''July 26, 2024'' ''July 27, 2024'', Accept candidate1 1001] initialApp))
     = [1000, 1001, 1001]
   \<and> \<not> distinct (map idT (tasks (runStoreOps
      [SyncNow 1000 1000 ''July 26, 2024'' ''July 27, 2024'', Accept candidate1 1001] initialApp)))"
  by (simp add: handleSyncNow_def handleAccept_def setParsedTask_def initialApp_def Let_def)

text \<open>Claim C5, amended, on a sync, an accept and a second sync with an advancing clock.\<close>

theorem ids_unique_under_fresh_clock_witness:
  "distinct (map idT (tasks initialApp))
   \<and> clockAheadRun [SyncNow 1000 1000 ''July 26, 2024'' ''July 27, 2024'', Accept candidate1 1002,
        SyncNow 2000 2001 ''July 26, 2024'' ''July 27, 2024''] initialApp
   \<and> map idT (tasks (runStoreOps
        [SyncNow 1000 1000 ''July 26, 2024'' ''July 27, 2024'', Accept candidate1 1002,
         SyncNow 2000 2001 ''July 26, 2024'' ''July 27, 2024''] initialApp)) = [1002, 2000, 2002]
   \<and> distinct (map idT (tasks (runStoreOps
        [SyncNow 1000 1000 ''July 26, 2024'' ''July 27, 2024'', Accept candidate1 1002,
         SyncNow 2000 2001 ''July 26, 2024'' ''July 27, 2024''] initialApp)))"
proof -
  have d: "distinct (map idT (tasks initialApp))"
    by (simp add: initialApp_def)
  have c: "clockAheadRun [SyncNow 1000 1000 ''July 26, 2024'' ''July 27, 2024'', Accept candidate1 1002,
        SyncNow 2000 2001 ''July 26, 2024'' ''July 27, 2024''] initialApp"
    by (simp add: laterThanIds_def handleSyncNow_def handleAccept_def setParsedTask_def
        initialApp_def Let_def)
  have r: "map idT (tasks (runStoreOps
        [SyncNow 1000 1000 ''July 26, 2024'' ''July 27, 2024'', Accept candidate1 1002,
         SyncNow 2000 2001 ''July 26, 2024'' ''July 27, 2024''] initialApp)) = [1002, 2000, 2002]"
    by (simp add: handleSyncNow_def handleAccept_def setParsedTask_def initialApp_def Let_def)
  show ?thesis using d c r ids_unique_under_fresh_clock [OF d c] by simp
qed

text \<open>With a difference of ranks as comparator, \<open>js_sort\<close> is the stable sort by rank.\<close>

lemma insertBy_insort:
  fixes f :: "'a \<Rightarrow> int"
  shows "insertBy (\<lambda>a b. f a - f b) x ys = insort_key f x ys"
  by (induction ys) simp_all

lemma js_sort_sort_key:
  fixes f :: "'a \<Rightarrow> int"
  shows "js_sort (\<lambda>a b. f a - f b) xs = sort_key f xs"
  by (induction xs) (simp_all add: js_sort_def sort_key_def insertBy_insort)

lemma sorted_split:
  fixes f :: "'a \<Rightarrow> int"
  assumes "sorted (map f xs)"
  shows "xs = filter (\<lambda>x. f x \<le> k) xs @ filter (\<lambda>x. k < f x) xs"
  using assms
proof (induction xs)
  case Nil
  then show ?case by simp
next
  case (Cons x xs)
  then have le: "\<forall>y \<in> set xs. f x \<le> f y" and s: "sorted (map f xs)"
    by auto
  show ?case
  proof (cases "f x \<le> k")
    case True
    then show ?thesis using Cons.IH [OF s] by simp
  next
    case False
    then have "\<forall>y \<in> set xs. k < f y" using le by fastforce
    then have "filter (\<lambda>x. f x \<le> k) xs = []" "filter (\<lambda>x. k < f x) xs = xs"
      by (auto simp: filter_empty_conv filter_id_conv)
    then show ?thesis using False by simp
  qed
qed

lemma rank_eq: "(priorityOrder q = priorityOrder p) = (q = p)"
  by (cases q; cases p) simp_all

lemma rank_high: "(priorityOrder q \<le> 1) = (q = High)"
  by (cases q) simp_all

lemma rank_medium: "(1 < priorityOrder q \<and> priorityOrder q \<le> 2) = (q = Medium)"
  by (cases q) simp_all

lemma rank_low: "(1 < priorityOrder q \<and> 2 < priorityOrder q) = (q = Low)"
  by (cases q) simp_all

lemma filter_rank:
  "filter (\<lambda>t. priorityOrder (priority t) = priorityOrder p) xs = filter (\<lambda>t. priority t = p) xs"
  by (simp add: rank_eq)

lemma sorted_by_priority:
  "sortedActiveTasks st = sort_key (\<lambda>t. priorityOrder (priority t)) (activeTasks st)"
  by (simp add: sortedActiveTasks_def js_sort_sort_key)

lemma stable_by_priority:
  "filter (\<lambda>t. priority t = p) (sortedActiveTasks st) = filter (\<lambda>t. priority t = p) (activeTasks st)"
  using sort_key_stable [of "\<lambda>t. priorityOrder (priority t)" "priorityOrder p" "activeTasks st"]
  by (simp add: sorted_by_priority filter_rank)

lemma three_bands:
  fixes xs :: "ParsedTask list"
  assumes "sorted (map (\<lambda>t. priorityOrder (priority t)) xs)"
  shows "xs = filter (\<lambda>t. priority t = High) xs @ filter (\<lambda>t. priority t = Medium) xs
           @ filter (\<lambda>t. priority t = Low) xs"
proof -
  let ?f = "\<lambda>t::ParsedTask. priorityOrder (priority t)"
  let ?rest = "filter (\<lambda>t. 1 < ?f t) xs"
  have a: "xs = filter (\<lambda>t. ?f t \<le> 1) xs @ ?rest"
    using assms by (rule sorted_split)
  have "sorted (map ?f ?rest)"
    using assms by (rule sorted_filter)
  then have b: "?rest = filter (\<lambda>t. ?f t \<le> 2) ?rest @ filter (\<lambda>t. 2 < ?f t) ?rest"
    by (rule sorted_split)
  have h: "filter (\<lambda>t. ?f t \<le> 1) xs = filter (\<lambda>t. priority t = High) xs"
    by (simp add: rank_high)
  have m: "filter (\<lambda>t. ?f t \<le> 2) ?rest = filter (\<lambda>t. priority t = Medium) xs"
    by (simp add: rank_medium)
  have l: "filter (\<lambda>t. 2 < ?f t) ?rest = filter (\<lambda>t. priority t = Low) xs"
    by (simp add: rank_low)
  show ?thesis using a b h m l by metis
qed

text \<open>
  Claim C7. \<open>sortedActiveTasks\<close> is the active High tasks, then the active Medium tasks,
  then the active Low tasks, each group in the order of the store. So it holds exactly
  the tasks with \<open>status = Active\<close>, it is ordered by priority alone, and tasks of equal
  priority keep the order they have in the store. The order of the store is the order of
  insertion: toggling a status moves no task, and accepting a candidate appends.
\<close>

theorem active_by_priority_stable:
  "sortedActiveTasks st =
      filter (\<lambda>t. priority t = High) (activeTasks st)
    @ filter (\<lambda>t. priority t = Medium) (activeTasks st)
    @ filter (\<lambda>t. priority t = Low) (activeTasks st)
   \<and> mset (sortedActiveTasks st) = mset (filter (\<lambda>t. status t = Active) (tasks st))
   \<and> sorted (map (\<lambda>t. priorityOrder (priority t)) (sortedActiveTasks st))
   \<and> filter (\<lambda>t. priority t = p) (sortedActiveTasks st) =
       filter (\<lambda>t. priority t = p) (filter (\<lambda>t. status t = Active) (tasks st))
   \<and> map idT (tasks (handleToggleComplete i st)) = map idT (tasks st)
   \<and> (\<exists>new. tasks (handleAccept now st) = tasks st @ new)"
proof -
  have s: "sorted (map (\<lambda>t. priorityOrder (priority t)) (sortedActiveTasks st))"
    by (simp add: sorted_by_priority)
  have "sortedActiveTasks st =
      filter (\<lambda>t. priority t = High) (sortedActiveTasks st)
    @ filter (\<lambda>t. priority t = Medium) (sortedActiveTasks st)
    @ filter (\<lambda>t. priority t = Low) (sortedActiveTasks st)"
    using s by (rule three_bands)
  then have 1: "sortedActiveTasks st =
      filter (\<lambda>t. priority t = High) (activeTasks st)
    @ filter (\<lambda>t. priority t = Medium) (activeTasks st)
    @ filter (\<lambda>t. priority t = Low) (activeTasks st)"
    by (simp only: stable_by_priority)
  have 2: "mset (sortedActiveTasks st) = mset (filter (\<lambda>t. status t = Active) (tasks st))"
    by (simp add: sorted_by_priority activeTasks_def)
  have 3: "filter (\<lambda>t. priority t = p) (sortedActiveTasks st) =
       filter (\<lambda>t. priority t = p) (filter (\<lambda>t. status t = Active) (tasks st))"
    by (simp only: stable_by_priority activeTasks_def)
  have 4: "map idT (tasks (handleToggleComplete i st)) = map idT (tasks st)"
    by (simp add: handleToggleComplete_def Let_def setActiveTimer_def comp_def)
  have 5: "\<exists>new. tasks (handleAccept now st) = tasks st @ new"
    by (simp add: handleAccept_def Let_def split: option.splits)
  show ?thesis using 1 2 s 3 4 5 by blast
qed

text \<open>On a store of six tasks, and on the same store after task 3 is revived.\<close>

lemma sortedActiveTasks_example:
  "map idT (sortedActiveTasks mixedStoreApp) = [2, 4, 5, 1, 6]
   \<and> map idT (sortedActiveTasks (handleToggleComplete 3 mixedStoreApp)) = [2, 3, 4, 5, 1, 6]"
  by (simp add: sortedActiveTasks_def activeTasks_def js_sort_def mixedStoreApp_def
      handleToggleComplete_def Let_def initialApp_def)

text \<open>
  \<open>handleToggleComplete\<close> flips the status of the task with the given id and resets the
  timer when it belongs to that id; with no such task, and a timer that belongs to a task
  of the store, it changes nothing; and it keeps the timer attached to an active task of
  the store.
\<close>

lemma toggle_tasks:
  "tasks (handleToggleComplete i st) =
     map (\<lambda>task. if idT task = i
                 then task\<lparr>status := (if status task = Active then Completed else Active)\<rparr>
                 else task) (tasks st)"
  by (simp add: handleToggleComplete_def Let_def setActiveTimer_def)

lemma toggle_timer:
  "activeTimer (handleToggleComplete i st) =
     (if map_option taskId (activeTimer st) = Some i then None else activeTimer st)"
  by (cases "activeTimer st") (simp_all add: handleToggleComplete_def Let_def setActiveTimer_def)

lemma toggle_absent:
  assumes "i \<notin> idT ` set (tasks st)" and "attachedTaskActive st"
  shows "handleToggleComplete i st = st"
proof -
  have m: "map (\<lambda>task. if idT task = i
                 then task\<lparr>status := (if status task = Active then Completed else Active)\<rparr>
                 else task) (tasks st) = tasks st"
    using assms(1) by (intro map_idI) auto
  have n: "map_option taskId (activeTimer st) \<noteq> Some i"
    using assms by (force simp: attachedTaskActive_def list_ex_iff split: option.splits)
  show ?thesis
    unfolding handleToggleComplete_def Let_def m using n by auto
qed

lemma toggle_keeps_attachment:
  assumes "attachedTaskActive st"
  shows "attachedTaskActive (handleToggleComplete i st)"
proof (cases "map_option taskId (activeTimer st) = Some i")
  case True
  then show ?thesis by (simp add: attachedTaskActive_def toggle_timer)
next
  case False
  then show ?thesis using assms
    by (auto simp: attachedTaskActive_def toggle_timer toggle_tasks list_ex_iff split: option.splits)
qed

text \<open>
  Claim C6 says that every operation keeps the timer attached to a task that exists and
  is active. \<open>handleToggleComplete\<close> does, by resetting the timer.
  \<open>handleDisconnectGoogleCalendar\<close> removes the Google tasks and leaves the timer as it
  is: after connect, sync, and a timer started on the synced task 1000, disconnecting
  empties the store while the timer still runs for task 1000.
\<close>

theorem disconnect_leaves_timer_attached:
  "attachedTaskActive syncedTimerApp
   \<and> tasks (handleDisconnectGoogleCalendar syncedTimerApp) = []
   \<and> activeTimer (handleDisconnectGoogleCalendar syncedTimerApp) =
       Some \<lparr>taskId = 1000, timeLeft = 1500, mode = Work, cycleCount = 0, isPaused = False\<rparr>
   \<and> \<not> attachedTaskActive (handleDisconnectGoogleCalendar syncedTimerApp)"
  by (simp add: attachedTaskActive_def syncedTimerApp_def handleDisconnectGoogleCalendar_def
      handleStartTimer_def setActiveTimer_def handleSyncNow_def handleConnectGoogleCalendar_def
      initialApp_def DEFAULT_SETTINGS_def Let_def)

section \<open>Properties of the settings\<close>

lemma digit_not_space: "isDigit c \<Longrightarrow> \<not> isWhiteSpace c"
  by (auto simp: isDigit_def isWhiteSpace_def)

lemma digit_not_sign: "isDigit c \<Longrightarrow> c \<noteq> CHR ''+'' \<and> c \<noteq> CHR ''-''"
  by (auto simp: isDigit_def)

lemma sign_not_space: "\<not> isWhiteSpace (CHR ''+'')" "\<not> isWhiteSpace (CHR ''-'')"
  by (simp_all add: isWhiteSpace_def)

lemma sign_not_digit: "\<not> isDigit (CHR ''+'')" "\<not> isDigit (CHR ''-'')"
  by (simp_all add: isDigit_def)

lemma drop_spaces:
  assumes "list_all isWhiteSpace ws" and "x = [] \<or> \<not> isWhiteSpace (hd x)"
  shows "dropWhile isWhiteSpace (ws @ x) = x"
proof -
  have "dropWhile isWhiteSpace (ws @ x) = dropWhile isWhiteSpace x"
    using assms(1) by (simp add: list_all_iff)
  also have "\<dots> = x" using assms(2) by (cases x) auto
  finally show ?thesis .
qed

lemma take_digits:
  assumes "list_all isDigit ds" and "rest = [] \<or> \<not> isDigit (hd rest)"
  shows "takeWhile isDigit (ds @ rest) = ds"
proof -
  have "takeWhile isDigit rest = []" using assms(2) by (cases rest) auto
  then show ?thesis using assms(1) by (simp add: list_all_iff)
qed

lemma digitsValue_nonneg: "list_all isDigit ds \<Longrightarrow> 0 \<le> digitsValue ds"
proof -
  have "list_all isDigit ds \<Longrightarrow> 0 \<le> a \<Longrightarrow> 0 \<le> foldl (\<lambda>acc c. 10 * acc + digitValue c) a ds" for a
    by (induction ds arbitrary: a) (auto simp: isDigit_def digitValue_def)
  then show "list_all isDigit ds \<Longrightarrow> 0 \<le> digitsValue ds"
    by (simp add: digitsValue_def)
qed

text \<open>What \<open>parseInt\<close> returns on a text with a digit prefix, and on one without.\<close>

lemma parse_prefix:
  assumes ws: "list_all isWhiteSpace ws"
    and sg: "sg = [] \<or> sg = ''+'' \<or> sg = ''-''"
    and ds: "list_all isDigit ds" "ds \<noteq> []"
    and rest: "rest = [] \<or> \<not> isDigit (hd rest)"
  shows "parseInt10 (ws @ sg @ ds @ rest) =
           (case roundToDouble (nat (digitsValue ds)) of
              Some v \<Rightarrow> Num ((if sg = ''-'' then - 1 else 1) * int v)
            | None \<Rightarrow> if sg = ''-'' then NegInfinity else Infinity)"
proof -
  obtain d ds' where d: "ds = d # ds'" "isDigit d"
    using ds by (cases ds) auto
  have S: "dropWhile isWhiteSpace (ws @ sg @ ds @ rest) = sg @ ds @ rest"
    using sg d by (intro drop_spaces [OF ws]) (auto simp: sign_not_space digit_not_space)
  have Z: "takeWhile isDigit (ds @ rest) = ds"
    using ds(1) rest by (rule take_digits)
  from sg show ?thesis
  proof (elim disjE)
    assume "sg = []"
    then show ?thesis
      using d digit_not_sign [of d] Z
      unfolding parseInt10_def S Let_def by (simp split: option.splits)
  next
    assume "sg = ''+''"
    then show ?thesis
      using d Z ds(2)
      unfolding parseInt10_def S Let_def by (simp split: option.splits)
  next
    assume "sg = ''-''"
    then show ?thesis
      using d Z ds(2)
      unfolding parseInt10_def S Let_def by (simp split: option.splits)
  qed
qed

lemma parse_no_digits:
  assumes ws: "list_all isWhiteSpace ws"
    and sg: "sg = [] \<or> sg = ''+'' \<or> sg = ''-''"
    and rest: "rest = [] \<or> \<not> isDigit (hd rest)"
    and bare: "sg = [] \<Longrightarrow> rest = [] \<or>
       (\<not> isWhiteSpace (hd rest) \<and> hd rest \<noteq> CHR ''+'' \<and> hd rest \<noteq> CHR ''-'')"
  shows "parseInt10 (ws @ sg @ rest) = NaN"
proof -
  have Z: "takeWhile isDigit rest = []" using rest by (cases rest) auto
  from sg show ?thesis
  proof (elim disjE)
    assume e: "sg = []"
    have S: "dropWhile isWhiteSpace (ws @ sg @ rest) = rest"
      using e bare drop_spaces [OF ws, of rest] by auto
    show ?thesis
      using e bare Z unfolding parseInt10_def S Let_def by auto
  next
    assume e: "sg = ''+''"
    have S: "dropWhile isWhiteSpace (ws @ sg @ rest) = sg @ rest"
      using e by (intro drop_spaces [OF ws]) (simp add: sign_not_space)
    show ?thesis
      using e Z unfolding parseInt10_def S Let_def by simp
  next
    assume e: "sg = ''-''"
    have S: "dropWhile isWhiteSpace (ws @ sg @ rest) = sg @ rest"
      using e by (intro drop_spaces [OF ws]) (simp add: sign_not_space)
    show ?thesis
      using e Z unfolding parseInt10_def S Let_def by simp
  qed
qed

text \<open>Rounding keeps a positive number positive, and is exact below \<open>2^53\<close>.\<close>

lemma bitLength_lower: "0 < n \<Longrightarrow> 2 ^ (bitLength n - 1) \<le> n"
proof (induction n rule: bitLength.induct)
  case (1 n)
  show ?case
  proof (cases "n div 2 = 0")
    case True
    then have "n = 1" using "1.prems" by arith
    then show ?thesis by (simp add: bitLength.simps [of "Suc 0"] bitLength.simps [of 0])
  next
    case False
    then have "2 ^ (bitLength (n div 2) - 1) \<le> n div 2"
      using "1.IH" "1.prems" by simp
    moreover have "bitLength (n div 2) \<noteq> 0"
      using False by (simp add: bitLength.simps [of "n div 2"])
    then have "bitLength n - 1 = Suc (bitLength (n div 2) - 1)"
      using "1.prems" by (simp add: bitLength.simps [of n])
    ultimately show ?thesis by simp
  qed
qed

lemma round_positive:
  assumes "0 < n" and "roundToDouble n = Some v"
  shows "0 < v"
proof (cases "n < 2 ^ 53")
  case True
  then show ?thesis using assms by (simp add: roundToDouble_def)
next
  case False
  define e where "e = bitLength n - 53"
  have "(2::nat) ^ e \<le> 2 ^ (bitLength n - 1)"
    unfolding e_def by (rule power_increasing) simp_all
  also have "\<dots> \<le> n" using assms(1) by (rule bitLength_lower)
  finally have "0 < n div 2 ^ e"
    by (simp add: div_greater_zero_iff)
  then have "0 < (if 2 ^ e < 2 * (n mod 2 ^ e) \<or> (2 * (n mod 2 ^ e) = 2 ^ e \<and> odd (n div 2 ^ e))
                  then n div 2 ^ e + 1 else n div 2 ^ e) * 2 ^ e"
    by simp
  moreover have "roundToDouble n =
      (if (if 2 ^ e < 2 * (n mod 2 ^ e) \<or> (2 * (n mod 2 ^ e) = 2 ^ e \<and> odd (n div 2 ^ e))
           then n div 2 ^ e + 1 else n div 2 ^ e) * 2 ^ e < 2 ^ 1024
       then Some ((if 2 ^ e < 2 * (n mod 2 ^ e) \<or> (2 * (n mod 2 ^ e) = 2 ^ e \<and> odd (n div 2 ^ e))
           then n div 2 ^ e + 1 else n div 2 ^ e) * 2 ^ e) else None)"
    using False unfolding roundToDouble_def Let_def e_def by simp
  ultimately show ?thesis using assms(2) by (simp split: if_splits)
qed

lemma round_exact: "n < 2 ^ 53 \<Longrightarrow> roundToDouble n = Some n"
  by (simp add: roundToDouble_def)

lemma positive_setField:
  "positiveSettings s \<Longrightarrow> 0 < n \<Longrightarrow> positiveSettings (setField field n s)"
  by (cases field) (simp_all add: positiveSettings_def positiveDurations_def)

lemma settings_change_positive:
  assumes "positiveSettings (pomodoroSettings st)" and "handleSettingsChange field val st = Some st'"
  shows "positiveSettings (pomodoroSettings st')"
  using assms
  by (auto simp: handleSettingsChange_def positive_setField split: JSNumber.splits if_splits)

text \<open>
  Claim C9, amended. The submitted text is read as white space, an optional sign, a
  prefix of decimal digits, and a rest that does not go on with a digit. With digits, the
  update is rejected, and the state returned unchanged, when the sign is \<open>-\<close> or the
  digits denote 0; otherwise the field is set to the double of the digits' value, which
  is the value itself below \<open>2^53\<close>, and nothing else changes, whatever the rest is.
  Without digits the update is rejected. A positive configuration stays positive. The
  one input that the model does not follow is a digit prefix beyond the largest double,
  for which the code stores \<open>Infinity\<close>.
\<close>

theorem settings_prefix_semantics:
  assumes "list_all isWhiteSpace ws"
    and "sg = [] \<or> sg = ''+'' \<or> sg = ''-''"
    and "list_all isDigit ds"
    and "rest = [] \<or> \<not> isDigit (hd rest)"
  shows "(ds \<noteq> [] \<longrightarrow>
            handleSettingsChange field (ws @ sg @ ds @ rest) st =
              (if sg = ''-'' \<or> digitsValue ds = 0 then Some st
               else map_option
                      (\<lambda>v. st\<lparr>pomodoroSettings := setField field (int v) (pomodoroSettings st)\<rparr>)
                      (roundToDouble (nat (digitsValue ds)))))
       \<and> (digitsValue ds < 2 ^ 53 \<longrightarrow>
            roundToDouble (nat (digitsValue ds)) = Some (nat (digitsValue ds)))
       \<and> ((sg = [] \<longrightarrow> rest = [] \<or>
              (\<not> isWhiteSpace (hd rest) \<and> hd rest \<noteq> CHR ''+'' \<and> hd rest \<noteq> CHR ''-''))
            \<longrightarrow> handleSettingsChange field (ws @ sg @ rest) st = Some st)
       \<and> (\<forall>st'. positiveSettings (pomodoroSettings st)
              \<and> handleSettingsChange field (ws @ sg @ ds @ rest) st = Some st'
            \<longrightarrow> positiveSettings (pomodoroSettings st'))"
proof -
  have nn: "0 \<le> digitsValue ds"
    using assms(3) by (rule digitsValue_nonneg)
  have A: "handleSettingsChange field (ws @ sg @ ds @ rest) st =
              (if sg = ''-'' \<or> digitsValue ds = 0 then Some st
               else map_option
                      (\<lambda>v. st\<lparr>pomodoroSettings := setField field (int v) (pomodoroSettings st)\<rparr>)
                      (roundToDouble (nat (digitsValue ds))))" if ne: "ds \<noteq> []"
  proof (cases "roundToDouble (nat (digitsValue ds))")
    case None
    then have "digitsValue ds \<noteq> 0" by (auto simp: roundToDouble_def)
    then show ?thesis
      using None by (simp add: handleSettingsChange_def parse_prefix [OF assms(1,2,3) ne assms(4)])
  next
    case (Some v)
    show ?thesis
    proof (cases "digitsValue ds = 0")
      case True
      then have "v = 0" using Some by (simp add: roundToDouble_def)
      then show ?thesis
        using Some True
        by (simp add: handleSettingsChange_def parse_prefix [OF assms(1,2,3) ne assms(4)])
    next
      case False
      then have "0 < nat (digitsValue ds)" using nn by simp
      then have "0 < v" using Some by (rule round_positive)
      then show ?thesis
        using Some False
        by (simp add: handleSettingsChange_def parse_prefix [OF assms(1,2,3) ne assms(4)])
    qed
  qed
  have B: "digitsValue ds < 2 ^ 53 \<longrightarrow>
            roundToDouble (nat (digitsValue ds)) = Some (nat (digitsValue ds))"
  proof
    assume "digitsValue ds < 2 ^ 53"
    then have "nat (digitsValue ds) < 2 ^ 53" using nn by (simp add: nat_less_iff)
    then show "roundToDouble (nat (digitsValue ds)) = Some (nat (digitsValue ds))"
      by (rule round_exact)
  qed
  have C: "handleSettingsChange field (ws @ sg @ rest) st = Some st"
    if "sg = [] \<longrightarrow> rest = [] \<or>
              (\<not> isWhiteSpace (hd rest) \<and> hd rest \<noteq> CHR ''+'' \<and> hd rest \<noteq> CHR ''-'')"
    using that by (simp add: handleSettingsChange_def parse_no_digits [OF assms(1,2,4)])
  have D: "\<forall>st'. positiveSettings (pomodoroSettings st)
              \<and> handleSettingsChange field (ws @ sg @ ds @ rest) st = Some st'
            \<longrightarrow> positiveSettings (pomodoroSettings st')"
    using settings_change_positive by blast
  show ?thesis using A B C D by blast
qed

text \<open>
  Claim C9 says that a non-numeric input is rejected and that only an input parsing to a
  positive integer changes the setting. The text `` 42abc'' is not a number, and it
  sets \<open>work\<close> to 42; the text ``3.7'' is not an integer, and it sets \<open>cycles\<close> to 3.
\<close>

theorem settings_prefix_counterexample:
  "handleSettingsChange F_work '' 42abc'' initialApp =
     Some (initialApp\<lparr>pomodoroSettings :=
       \<lparr>work = 42, shortBreak = 5, longBreak = 15, cycles = 4\<rparr>\<rparr>)
   \<and> handleSettingsChange F_cycles ''3.7'' initialApp =
     Some (initialApp\<lparr>pomodoroSettings :=
       \<lparr>work = 25, shortBreak = 5, longBreak = 15, cycles = 3\<rparr>\<rparr>)"
  by (simp add: handleSettingsChange_def parseInt10_def isWhiteSpace_def isDigit_def
      digitsValue_def digitValue_def roundToDouble_def initialApp_def DEFAULT_SETTINGS_def)

text \<open>The doubles of \<open>2^53 + 1\<close> and of \<open>10^309\<close>.\<close>

lemma bitLength_rounded: "bitLength 9007199254740993 = 54"
  by (simp add: bitLength.simps)

lemma round_rounded: "roundToDouble 9007199254740993 = Some 9007199254740992"
  by (simp add: roundToDouble_def bitLength_rounded)

lemma bitLength_huge: "bitLength (10 ^ 309) = 1027"
  by (simp add: bitLength.simps)

lemma round_huge: "roundToDouble (10 ^ 309) = None"
  unfolding roundToDouble_def Let_def bitLength_huge by simp

lemma digits_huge: "list_all isDigit hugeInput \<and> digitsValue hugeInput = 10 ^ 309"
  by code_simp

text \<open>
  Claim C9, amended, on the texts `` 42abc'', ``-5'', ``0.5'', ``abc'', `` +'',
  ``9007199254740993'', and a 1 followed by 309 zeros.
\<close>

theorem settings_prefix_semantics_witness:
  "handleSettingsChange F_work '' 42abc'' initialApp =
     Some (initialApp\<lparr>pomodoroSettings :=
       \<lparr>work = 42, shortBreak = 5, longBreak = 15, cycles = 4\<rparr>\<rparr>)
   \<and> handleSettingsChange F_work ''-5'' initialApp = Some initialApp
   \<and> handleSettingsChange F_work ''0.5'' initialApp = Some initialApp
   \<and> handleSettingsChange F_work ''abc'' initialApp = Some initialApp
   \<and> handleSettingsChange F_work '' +'' initialApp = Some initialApp
   \<and> handleSettingsChange F_work roundedInput initialApp =
     Some (initialApp\<lparr>pomodoroSettings :=
       \<lparr>work = 9007199254740992, shortBreak = 5, longBreak = 15, cycles = 4\<rparr>\<rparr>)
   \<and> handleSettingsChange F_work hugeInput initialApp = None"
proof -
  note defs = isWhiteSpace_def isDigit_def digitsValue_def digitValue_def
  have a: "handleSettingsChange F_work ('' '' @ [] @ ''42'' @ ''abc'') initialApp =
     Some (initialApp\<lparr>pomodoroSettings :=
       \<lparr>work = 42, shortBreak = 5, longBreak = 15, cycles = 4\<rparr>\<rparr>)"
    using settings_prefix_semantics [of "'' ''" "[]" "''42''" "''abc''" F_work initialApp]
    by (simp add: defs roundToDouble_def initialApp_def DEFAULT_SETTINGS_def)
  have b: "handleSettingsChange F_work ([] @ ''-'' @ ''5'' @ []) initialApp = Some initialApp"
    using settings_prefix_semantics [of "[]" "''-''" "''5''" "[]" F_work initialApp]
    by (simp add: defs)
  have c: "handleSettingsChange F_work ([] @ [] @ ''0'' @ ''.5'') initialApp = Some initialApp"
    using settings_prefix_semantics [of "[]" "[]" "''0''" "''.5''" F_work initialApp]
    by (simp add: defs)
  have d: "handleSettingsChange F_work ([] @ [] @ ''abc'') initialApp = Some initialApp"
    using settings_prefix_semantics [of "[]" "[]" "[]" "''abc''" F_work initialApp]
    by (simp add: defs)
  have e: "handleSettingsChange F_work ('' '' @ ''+'' @ []) initialApp = Some initialApp"
    using settings_prefix_semantics [of "'' ''" "''+''" "[]" "[]" F_work initialApp]
    by (simp add: defs)
  have f: "handleSettingsChange F_work ([] @ [] @ roundedInput @ []) initialApp =
     Some (initialApp\<lparr>pomodoroSettings :=
       \<lparr>work = 9007199254740992, shortBreak = 5, longBreak = 15, cycles = 4\<rparr>\<rparr>)"
    using settings_prefix_semantics [of "[]" "[]" roundedInput "[]" F_work initialApp]
    by (simp add: defs roundedInput_def round_rounded initialApp_def DEFAULT_SETTINGS_def)
  have "nat (digitsValue hugeInput) = 10 ^ 309"
    by (simp add: digits_huge)
  then have h: "roundToDouble (nat (digitsValue hugeInput)) = None"
    by (simp only: round_huge)
  have z: "digitsValue hugeInput \<noteq> 0"
    by (simp add: digits_huge)
  have g: "handleSettingsChange F_work ([] @ [] @ hugeInput @ []) initialApp = None"
    using settings_prefix_semantics [of "[]" "[]" hugeInput "[]" F_work initialApp]
      conjunct1 [OF digits_huge] h z
    by (simp add: hugeInput_def)
  show ?thesis using a b c d e f g by simp
qed

section \<open>Properties of the dates\<close>

end
